theory Spec2Isabelle
  imports Complex_Main "HOL-Library.Word"
begin

section \<open>Errors, responses and requests\<close>

text \<open>
  Go error values, as far as \<^verbatim>\<open>Client.Do\<close> and \<^verbatim>\<open>CheckRecoverableErrors\<close> look at them:
  a leaf error with its message, the two context errors, the x509 unknown-authority
  error, \<^verbatim>\<open>*url.Error{Op, URL, Err}\<close>, and an error built by \<^verbatim>\<open>fmt.Errorf\<close>
  (its message and the operand of \<^verbatim>\<open>%w\<close>, which \<^verbatim>\<open>Unwrap\<close> returns).
\<close>

datatype goerr =
    ErrorString string
  | ContextCanceled
  | DeadlineExceeded
  | UnknownAuthorityError
  | URLError string string goerr
  | WrapError string "goerr option"

text \<open>\<^verbatim>\<open>strconv.Quote\<close> on printable ASCII, as \<^verbatim>\<open>%q\<close> applies it to the URL.\<close>

fun quote_char :: "char \<Rightarrow> string" where
  "quote_char c = (if c = CHR 0x22 \<or> c = CHR 0x5C then [CHR 0x5C, c] else [c])"

definition Quote :: "string \<Rightarrow> string" where
  "Quote s = CHR 0x22 # concat (map quote_char s) @ [CHR 0x22]"

text \<open>The \<^verbatim>\<open>Error()\<close> method of each error.\<close>

fun Error :: "goerr \<Rightarrow> string" where
  "Error (ErrorString m) = m"
| "Error ContextCanceled = ''context canceled''"
| "Error DeadlineExceeded = ''context deadline exceeded''"
| "Error UnknownAuthorityError = ''x509: certificate signed by unknown authority''"
| "Error (URLError op u e) = op @ '' '' @ Quote u @ '': '' @ Error e"
| "Error (WrapError m e) = m"

fun HasPrefix :: "string \<Rightarrow> string \<Rightarrow> bool" where
  "HasPrefix s [] = True"
| "HasPrefix [] (p # ps) = False"
| "HasPrefix (c # cs) (p # ps) = (c = p \<and> HasPrefix cs ps)"

fun Contains :: "string \<Rightarrow> string \<Rightarrow> bool" where
  "Contains [] sub = (sub = [])"
| "Contains (c # cs) sub = (HasPrefix (c # cs) sub \<or> Contains cs sub)"

record response =
  StatusCode :: int
  Body :: nat

datatype ctxval = IntVal int | OtherVal

text \<open>
  A \<^verbatim>\<open>context.Context\<close>: what \<^verbatim>\<open>Err()\<close> returns when it is asked, and the
  value stored under the key \<^verbatim>\<open>RetryMax\<close>.
\<close>

record gocontext =
  ctxErr :: "goerr option"
  ctxRetryMax :: "ctxval option"

datatype authtype = BasicAuth | DigestAuth

text \<open>
  Modelled from the spec: the declaration of \<^verbatim>\<open>Request\<close> (with \<^verbatim>\<open>hasAuth\<close>,
  \<^verbatim>\<open>Auth\<close> and \<^verbatim>\<open>Metrics\<close>) is not among the sources. The request has a method, a
  target URL, an attached context, an optional credential pair for an authenticating
  transport, and the counters of its metrics record, which live in the state below.
\<close>

record request =
  Method :: string
  URL :: string
  Context :: gocontext
  Auth :: "authtype option"

definition hasAuth :: "request \<Rightarrow> bool" where
  "hasAuth req = (Auth req \<noteq> None)"

section \<open>Options and client\<close>

type_synonym duration = int

type_synonym CheckRetry = "gocontext \<Rightarrow> response option \<Rightarrow> goerr option \<Rightarrow> bool \<times> goerr option"

type_synonym Backoff = "duration \<Rightarrow> duration \<Rightarrow> int \<Rightarrow> response option \<Rightarrow> duration"

type_synonym ErrorHandler =
  "response option \<Rightarrow> goerr option \<Rightarrow> int \<Rightarrow> response option \<times> goerr option"

text \<open>
  An \<^verbatim>\<open>http.Client\<close> as \<^verbatim>\<open>New\<close> touches it: its timeout, and its transport when
  that is an \<^verbatim>\<open>*http.Transport\<close>.
\<close>

record http_transport =
  DisableKeepAlives :: bool
  MaxConnsPerHost :: int
  MaxIdleConnsPerHost :: int

record http_client =
  Transport :: "http_transport option"
  ClientTimeout :: duration

text \<open>
  The three optional fields of \<^verbatim>\<open>Options\<close> (\<^verbatim>\<open>HTTPClient\<close>, \<^verbatim>\<open>CheckRetry\<close>,
  \<^verbatim>\<open>Backoff\<close>) carry the prefix \<open>opt\<close>: the client has fields of the same names.
\<close>

record Options =
  optHTTPClient :: "http_client option"
  KillIdleConn :: bool
  RespReadLimit :: int
  Timeout :: duration
  NoAdjustTimeout :: bool
  optCheckRetry :: "CheckRetry option"
  RetryMax :: int
  optBackoff :: "Backoff option"
  RetryWaitMin :: duration
  RetryWaitMax :: duration
  Verbose :: bool

text \<open>
  The client as \<^verbatim>\<open>Do\<close> reads it. The two hooks are user code whose only visible
  effect here is that they were called, so the model keeps whether each is set and
  logs the call.
\<close>

record Client =
  HTTPClient :: http_client
  HTTP2Client :: http_client
  RequestLogHook :: bool
  ResponseLogHook :: bool
  ErrorHandler :: "ErrorHandler option"
  CheckRetry :: CheckRetry
  Backoff :: Backoff
  options :: Options

text \<open>Everything \<^verbatim>\<open>Do\<close> does to the outside, in order.\<close>

datatype event =
    EvRequestLog nat
  | EvPrimary nat
  | EvDigest nat
  | EvHTTP2 nat
  | EvResponseLog "response option"
  | EvDrain response
  | EvBodyClose response
  | EvTimer duration
  | EvMainDone nat
  | EvCloseIdleConnections

text \<open>
  The mutable state: the client's \<^verbatim>\<open>requestCounter\<close> (a \<^verbatim>\<open>uint32\<close>), the request's
  metrics and the log of effects.
\<close>

record state =
  requestCounter :: "32 word"
  Failures :: int
  Retries :: int
  DrainErrors :: int
  trace :: "event list"

definition emit :: "event \<Rightarrow> state \<Rightarrow> state" where
  "emit ev s = s\<lparr>trace := trace s @ [ev]\<rparr>"

definition closeConnectionsCounter :: "32 word" where
  "closeConnectionsCounter = 100"

definition closeIdleConnections :: "Client \<Rightarrow> state \<Rightarrow> state" where
  "closeIdleConnections c s =
     (if KillIdleConn (options c) then
        (if requestCounter s < closeConnectionsCounter
         then s\<lparr>requestCounter := requestCounter s + 1\<rparr>
         else emit EvCloseIdleConnections (s\<lparr>requestCounter := 0\<rparr>))
      else s)"

text \<open>The number of forced idle-connection closures in a log.\<close>

definition closures :: "event list \<Rightarrow> nat" where
  "closures t = length (filter (\<lambda>ev. ev = EvCloseIdleConnections) t)"

section \<open>The outside world of one call of \<^verbatim>\<open>Do\<close>\<close>

text \<open>
  Which case the \<^verbatim>\<open>select\<close> of the inter-attempt wait takes: the main context is
  done, the request's context is done (and \<^verbatim>\<open>Err()\<close> then returns the given error),
  or the backoff timer fires.
\<close>

datatype select_case = MainCtxDone | ReqCtxDone goerr | TimerFired

text \<open>
  What the transports, the request's context, the body reader and the scheduler do at
  iteration \<open>i\<close> of the loop: the result of \<^verbatim>\<open>c.HTTPClient.Do\<close>, of the digest
  transport's \<^verbatim>\<open>RoundTrip\<close> and of \<^verbatim>\<open>c.HTTP2Client.Do\<close>, the value of
  \<^verbatim>\<open>req.Context().Err()\<close> at the first and at the second call of \<^verbatim>\<open>CheckRetry\<close>,
  whether \<^verbatim>\<open>io.Copy\<close> fails in \<^verbatim>\<open>drainBody\<close>, and the case the \<^verbatim>\<open>select\<close> takes.
\<close>

record env =
  primary :: "nat \<Rightarrow> response option \<times> goerr option"
  digest :: "nat \<Rightarrow> response option \<times> goerr option"
  http2 :: "nat \<Rightarrow> response option \<times> goerr option"
  ctx_err1 :: "nat \<Rightarrow> goerr option"
  ctx_err2 :: "nat \<Rightarrow> goerr option"
  drain_fails :: "nat \<Rightarrow> bool"
  selected :: "nat \<Rightarrow> select_case"

section \<open>\<^verbatim>\<open>Client.Do\<close>\<close>

definition malformedHTTP2 :: string where
  "malformedHTTP2 =
     ''net/http: HTTP/1.x transport connection broken: malformed HTTP version ''
       @ [CHR 0x22] @ ''HTTP/2'' @ [CHR 0x22]"

definition transport ::
  "env \<Rightarrow> request \<Rightarrow> nat \<Rightarrow> state \<Rightarrow> (response option \<times> goerr option) \<times> state" where
  "transport e req i s =
     (if hasAuth req \<and> Auth req = Some DigestAuth
      then (digest e i, emit (EvDigest i) s)
      else (primary e i, emit (EvPrimary i) s))"

text \<open>
  One pass of the loop body down to the retry decision (lines 98 to 131): the
  request hook, the transport, \<^verbatim>\<open>CheckRetry\<close>, the HTTP/2 fallback with its second
  \<^verbatim>\<open>CheckRetry\<close>, the failure counter or the response hook. It returns
  \<^verbatim>\<open>res\<close>, \<^verbatim>\<open>err\<close>, \<^verbatim>\<open>checkOK\<close> and \<^verbatim>\<open>checkErr\<close>.
\<close>

definition attempt ::
  "Client \<Rightarrow> env \<Rightarrow> request \<Rightarrow> nat \<Rightarrow> state
     \<Rightarrow> (response option \<times> goerr option \<times> bool \<times> goerr option) \<times> state" where
  "attempt c e req i s0 =
     (let s1 = (if RequestLogHook c then emit (EvRequestLog i) s0 else s0);
          ((res, err), s2) = transport e req i s1;
          chk = CheckRetry c ((Context req)\<lparr>ctxErr := ctx_err1 e i\<rparr>) res err;
          ((res, err), chk, s3) =
            (case err of
               Some x \<Rightarrow>
                 if Contains (Error x) malformedHTTP2
                 then (let (res2, err2) = http2 e i
                       in ((res2, err2),
                           CheckRetry c ((Context req)\<lparr>ctxErr := ctx_err2 e i\<rparr>) res2 err2,
                           emit (EvHTTP2 i) s2))
                 else ((res, err), chk, s2)
             | None \<Rightarrow> ((res, err), chk, s2));
          s4 = (if err \<noteq> None then s3\<lparr>Failures := Failures s3 + 1\<rparr>
                else if ResponseLogHook c then emit (EvResponseLog res) s3
                else s3)
      in ((res, err, fst chk, snd chk), s4))"

definition drainBody :: "env \<Rightarrow> nat \<Rightarrow> response \<Rightarrow> state \<Rightarrow> state" where
  "drainBody e i resp s =
     (let s1 = emit (EvDrain resp) s;
          s2 = (if drain_fails e i then s1\<lparr>DrainErrors := DrainErrors s1 + 1\<rparr> else s1)
      in emit (EvBodyClose resp) s2)"

text \<open>
  Lines 151 to 161, once the loop has decided to retry: the retry counter, the drain
  of a response that came without error, and the backoff, whose result goes to
  \<^verbatim>\<open>time.After\<close>.
\<close>

definition before_wait ::
  "Client \<Rightarrow> env \<Rightarrow> nat \<Rightarrow> response option \<Rightarrow> goerr option \<Rightarrow> state \<Rightarrow> state" where
  "before_wait c e i res err s =
     (let s1 = s\<lparr>Retries := Retries s + 1\<rparr>;
          s2 = (case res of
                  Some r \<Rightarrow> if err = None then drainBody e i r s1 else s1
                | None \<Rightarrow> s1);
          wait = Backoff c (RetryWaitMin (options c)) (RetryWaitMax (options c)) (int i) res
      in emit (EvTimer wait) s2)"

text \<open>
  How the loop ends: a \<^verbatim>\<open>return\<close> from inside it, with the pair returned, or the
  \<^verbatim>\<open>break\<close>, with the last \<^verbatim>\<open>res\<close> and \<^verbatim>\<open>err\<close>.
\<close>

datatype loop_exit =
    Return "response option" "goerr option"
  | Break "response option" "goerr option"

text \<open>
  The loop \<^verbatim>\<open>for i := 0; ; i++\<close>. The index only grows while \<^verbatim>\<open>retryMax - i\<close> is
  positive, so it stays below \<^verbatim>\<open>retryMax\<close> and neither \<^verbatim>\<open>i++\<close> nor the subtraction
  can overflow; the index is a natural number here.
\<close>

function attempt_loop ::
  "Client \<Rightarrow> env \<Rightarrow> request \<Rightarrow> int \<Rightarrow> nat \<Rightarrow> state \<Rightarrow> loop_exit \<times> state" where
  "attempt_loop c e req retryMax i s =
     (case attempt c e req i s of
        ((res, err, checkOK, checkErr), s1) \<Rightarrow>
          if \<not> checkOK
          then (Return res (if checkErr \<noteq> None then checkErr else err),
                closeIdleConnections c s1)
          else if retryMax - int i \<le> 0
          then (Break res err, s1)
          else (case selected e i of
                  MainCtxDone \<Rightarrow>
                    attempt_loop c e req retryMax (Suc i)
                      (emit (EvMainDone i) (before_wait c e i res err s1))
                | ReqCtxDone x \<Rightarrow>
                    (Return None (Some x),
                     closeIdleConnections c (before_wait c e i res err s1))
                | TimerFired \<Rightarrow>
                    attempt_loop c e req retryMax (Suc i) (before_wait c e i res err s1)))"
  by pat_completeness auto
termination
  by (relation "measure (\<lambda>(c, e, req, retryMax, i, s). nat (retryMax - int i))") auto

declare attempt_loop.simps [simp del]

text \<open>Go's \<^verbatim>\<open>int\<close> on a 64-bit platform: the result of an operation wraps.\<close>

definition go_int :: "int \<Rightarrow> int" where
  "go_int x = (x + 2 ^ 63) mod 2 ^ 64 - 2 ^ 63"

fun digits :: "nat \<Rightarrow> string" where
  "digits n =
     (if n < 10 then [''0123456789'' ! n]
      else digits (n div 10) @ [''0123456789'' ! (n mod 10)])"

text \<open>The verb \<^verbatim>\<open>%d\<close> on an \<^verbatim>\<open>int\<close>.\<close>

definition Itoa :: "int \<Rightarrow> string" where
  "Itoa n = (if n < 0 then CHR ''-'' # digits (nat (- n)) else digits (nat n))"

text \<open>
  \<^verbatim>\<open>fmt.Errorf("%s %s giving up after %d attempts: %w", method, url, n, err)\<close>: the
  message, and the error that \<^verbatim>\<open>Unwrap\<close> gives back. A nil operand of \<^verbatim>\<open>%w\<close> is
  printed as \<^verbatim>\<open>%!w(<nil>)\<close>.
\<close>

definition giving_up :: "string \<Rightarrow> string \<Rightarrow> int \<Rightarrow> goerr option \<Rightarrow> goerr" where
  "giving_up m u n err =
     WrapError
       (m @ '' '' @ u @ '' giving up after '' @ Itoa n @ '' attempts: ''
          @ (case err of Some x \<Rightarrow> Error x | None \<Rightarrow> ''%!w(<nil>)''))
       err"

text \<open>Lines 89 to 95: the per-call override in the request's context wins.\<close>

definition effective_retryMax :: "Client \<Rightarrow> request \<Rightarrow> int" where
  "effective_retryMax c req =
     (case ctxRetryMax (Context req) of
        Some (IntVal n) \<Rightarrow> n
      | Some OtherVal \<Rightarrow> RetryMax (options c)
      | None \<Rightarrow> RetryMax (options c))"

definition Do ::
  "Client \<Rightarrow> env \<Rightarrow> request \<Rightarrow> state \<Rightarrow> (response option \<times> goerr option) \<times> state" where
  "Do c e req s =
     (let retryMax = effective_retryMax c req
      in case attempt_loop c e req retryMax 0 s of
           (Return res err, s1) \<Rightarrow> ((res, err), s1)
         | (Break res err, s1) \<Rightarrow>
             (case ErrorHandler c of
                Some handler \<Rightarrow>
                  (handler res err (go_int (retryMax + 1)), closeIdleConnections c s1)
              | None \<Rightarrow>
                  (let s2 = (case res of Some r \<Rightarrow> emit (EvBodyClose r) s1 | None \<Rightarrow> s1)
                   in ((None,
                        Some (giving_up (Method req) (URL req) (go_int (retryMax + 1)) err)),
                       closeIdleConnections c s2))))"

text \<open>The transport attempts in a log: one per pass of the loop.\<close>

fun is_attempt :: "event \<Rightarrow> bool" where
  "is_attempt (EvPrimary i) = True"
| "is_attempt (EvDigest i) = True"
| "is_attempt ev = False"

definition attempts :: "event list \<Rightarrow> nat" where
  "attempts t = length (filter is_attempt t)"

section \<open>Machine integers and \<^verbatim>\<open>float64\<close>\<close>

text \<open>
  \<^verbatim>\<open>time.Duration\<close> is an \<^verbatim>\<open>int64\<close> of nanoseconds, and \<^verbatim>\<open>int\<close> has 64 bits as well:
  the values are integers in the range below, and \<open>go_int\<close> wraps a result into it.
\<close>

definition is_int64 :: "int \<Rightarrow> bool" where
  "is_int64 x = (- (2 ^ 63) \<le> x \<and> x < 2 ^ 63)"

definition Second :: duration where
  "Second = 1000000000"

text \<open>
  A \<^verbatim>\<open>float64\<close> is a finite value (a real number that binary64 represents), an
  infinity or a NaN. The sign of a zero is not kept: no operation used here tells
  the two zeros apart.
\<close>

datatype f64 = Finite real | PosInf | NegInf | NaN

text \<open>The number of binary digits of a positive integer.\<close>

function bit_length :: "int \<Rightarrow> int" where
  "bit_length n = (if n \<le> 0 then 0 else 1 + bit_length (n div 2))"
  by pat_completeness auto
termination
  by (relation "measure nat") auto

declare bit_length.simps [simp del]

text \<open>The binary exponent of a positive real: the \<open>e\<close> with \<open>2\<^sup>e \<le> x < 2\<^sup>e\<^sup>+\<^sup>1\<close>.\<close>

definition ilog2 :: "real \<Rightarrow> int" where
  "ilog2 x =
     (if 1 \<le> x then bit_length \<lfloor>x\<rfloor> - 1
      else - bit_length (\<lceil>1 / x\<rceil> - 1))"

text \<open>Rounding to the nearest integer, a tie to the even one.\<close>

definition rne :: "real \<Rightarrow> int" where
  "rne t =
     (let f = \<lfloor>t\<rfloor>; d = t - of_int f
      in if d < 1 / 2 then f
         else if 1 / 2 < d then f + 1
         else if even f then f else f + 1)"

text \<open>
  IEEE 754 rounding of a real to binary64, to nearest and ties to even: 53 significant
  bits, the exponent not below \<open>-1022\<close> (below that the spacing stays \<open>2\<^sup>-\<^sup>1\<^sup>0\<^sup>7\<^sup>4\<close>), and
  an infinity when the rounded value reaches \<open>2\<^sup>1\<^sup>0\<^sup>2\<^sup>4\<close>.
\<close>

definition round64 :: "real \<Rightarrow> f64" where
  "round64 x =
     (if x = 0 then Finite 0
      else
        (let e = max (ilog2 \<bar>x\<bar>) (- 1022);
             u = 2 powi (e - 52);
             y = of_int (rne (x / u)) * u
         in if 2 ^ 1024 \<le> \<bar>y\<bar> then (if 0 < x then PosInf else NegInf) else Finite y))"

text \<open>The conversion \<^verbatim>\<open>float64(x)\<close> of an integer.\<close>

definition f64_of_int :: "int \<Rightarrow> f64" where
  "f64_of_int x = round64 (of_int x)"

fun positive :: "f64 \<Rightarrow> bool" where
  "positive (Finite a) = (0 \<le> a)"
| "positive PosInf = True"
| "positive NegInf = False"
| "positive NaN = False"

definition fmul :: "f64 \<Rightarrow> f64 \<Rightarrow> f64" where
  "fmul x y =
     (if x = NaN \<or> y = NaN then NaN
      else case (x, y) of
             (Finite a, Finite b) \<Rightarrow> round64 (a * b)
           | _ \<Rightarrow> if x = Finite 0 \<or> y = Finite 0 then NaN
                  else if positive x = positive y then PosInf else NegInf)"

fun fneg :: "f64 \<Rightarrow> f64" where
  "fneg (Finite a) = Finite (- a)"
| "fneg PosInf = NegInf"
| "fneg NegInf = PosInf"
| "fneg NaN = NaN"

fun fadd :: "f64 \<Rightarrow> f64 \<Rightarrow> f64" where
  "fadd (Finite a) (Finite b) = round64 (a + b)"
| "fadd NaN y = NaN"
| "fadd x NaN = NaN"
| "fadd PosInf NegInf = NaN"
| "fadd NegInf PosInf = NaN"
| "fadd PosInf y = PosInf"
| "fadd NegInf y = NegInf"
| "fadd x PosInf = PosInf"
| "fadd x NegInf = NegInf"

definition fsub :: "f64 \<Rightarrow> f64 \<Rightarrow> f64" where
  "fsub x y = fadd x (fneg y)"

text \<open>Division by a finite constant other than zero, the only division used.\<close>

fun fdiv :: "f64 \<Rightarrow> real \<Rightarrow> f64" where
  "fdiv (Finite a) d = round64 (a / d)"
| "fdiv PosInf d = (if 0 < d then PosInf else NegInf)"
| "fdiv NegInf d = (if 0 < d then NegInf else PosInf)"
| "fdiv NaN d = NaN"

text \<open>The comparison \<^verbatim>\<open>x != y\<close>: a NaN differs from everything.\<close>

definition fne :: "f64 \<Rightarrow> f64 \<Rightarrow> bool" where
  "fne x y = (x = NaN \<or> y = NaN \<or> x \<noteq> y)"

definition truncate :: "real \<Rightarrow> int" where
  "truncate r = (if 0 \<le> r then \<lfloor>r\<rfloor> else \<lceil>r\<rceil>)"

text \<open>
  The conversion of a \<^verbatim>\<open>float64\<close> to \<^verbatim>\<open>int64\<close> (and to \<^verbatim>\<open>time.Duration\<close>): the
  fraction is dropped. Where the result does not fit, or the operand is a NaN, the
  language leaves the value to the implementation; \<open>impl\<close> is that choice.
\<close>

definition to_int64 :: "(f64 \<Rightarrow> int) \<Rightarrow> f64 \<Rightarrow> int" where
  "to_int64 impl x =
     (case x of
        Finite r \<Rightarrow> if is_int64 (truncate r) then truncate r else impl x
      | _ \<Rightarrow> impl x)"

text \<open>
  Two implementations: the x86-64 instruction gives the smallest \<^verbatim>\<open>int64\<close> for every
  operand it cannot convert; the arm64 instruction saturates and gives zero for a NaN.
\<close>

definition amd64 :: "f64 \<Rightarrow> int" where
  "amd64 x = - (2 ^ 63)"

fun arm64 :: "f64 \<Rightarrow> int" where
  "arm64 NaN = 0"
| "arm64 x = (if positive x then 2 ^ 63 - 1 else - (2 ^ 63))"

text \<open>
  \<^verbatim>\<open>math.Pow(2, float64(n))\<close> for an \<^verbatim>\<open>int\<close> \<open>n\<close>: the power of two where binary64
  has it, an infinity above, zero below.
\<close>

definition Pow2 :: "int \<Rightarrow> f64" where
  "Pow2 n =
     (if 1023 < n then PosInf
      else if n < - 1074 then Finite 0
      else Finite (2 powi n))"

section \<open>Backoff policies\<close>

definition DefaultBackoff :: "(f64 \<Rightarrow> int) \<Rightarrow> duration \<Rightarrow> duration \<Rightarrow> int \<Rightarrow> duration" where
  "DefaultBackoff impl min_d max_d attemptNum =
     (let mult = fmul (Pow2 attemptNum) (f64_of_int min_d);
          sleep = to_int64 impl mult
      in if fne (f64_of_int sleep) mult \<or> max_d < sleep then max_d else sleep)"

text \<open>
  What a function that reads \<^verbatim>\<open>crypto/rand\<close> does: it returns, it panics because a
  read failed, or it has not returned when the supplied reads are used up.
\<close>

datatype 'a outcome = Returns 'a | Panics | NoReturn

text \<open>One call of \<^verbatim>\<open>rand.Read\<close> for eight bytes: the bytes as a \<^verbatim>\<open>uint64\<close>, or an error.\<close>

datatype read = Bytes "64 word" | ReadError

fun cryptoRandFloat64 :: "read list \<Rightarrow> f64 outcome" where
  "cryptoRandFloat64 [] = NoReturn"
| "cryptoRandFloat64 (ReadError # rs) = Panics"
| "cryptoRandFloat64 (Bytes n # rs) = Returns (fdiv (f64_of_int (uint n)) (2 ^ 64))"

fun cryptoRandInt :: "read list \<Rightarrow> int \<Rightarrow> int outcome" where
  "cryptoRandInt rs maxi =
     (if maxi \<le> 0 then Returns 0
      else case rs of
             [] \<Rightarrow> NoReturn
           | ReadError # rs' \<Rightarrow> Panics
           | Bytes n # rs' \<Rightarrow>
               if uint n < 2 ^ 63 - 2 ^ 63 mod maxi
               then Returns (uint n mod maxi)
               else cryptoRandInt rs' maxi)"

definition LinearJitterBackoff ::
  "(f64 \<Rightarrow> int) \<Rightarrow> read list \<Rightarrow> duration \<Rightarrow> duration \<Rightarrow> int \<Rightarrow> duration outcome" where
  "LinearJitterBackoff impl rs min_d max_d attemptNum0 =
     (let attemptNum = go_int (attemptNum0 + 1)
      in if max_d \<le> min_d then Returns (go_int (min_d * attemptNum))
         else case cryptoRandFloat64 rs of
                Returns r \<Rightarrow>
                  (let jitter = fmul r (f64_of_int (go_int (max_d - min_d)));
                       jitterMin = go_int (to_int64 impl jitter + min_d)
                   in Returns (go_int (jitterMin * attemptNum)))
              | Panics \<Rightarrow> Panics
              | NoReturn \<Rightarrow> NoReturn)"

definition FullJitterBackoff ::
  "read list \<Rightarrow> duration \<Rightarrow> duration \<Rightarrow> int \<Rightarrow> duration outcome" where
  "FullJitterBackoff rs min_d max_d attemptNum =
     (let duration = go_int (go_int (attemptNum * 1000000000) * 2)
      in case cryptoRandInt rs (go_int (duration - attemptNum)) of
           Returns r \<Rightarrow>
             (let jitter = go_int (r + min_d)
              in if max_d < jitter then Returns max_d else Returns jitter)
         | Panics \<Rightarrow> Panics
         | NoReturn \<Rightarrow> NoReturn)"

definition ExponentialJitterBackoff ::
  "(f64 \<Rightarrow> int) \<Rightarrow> read list \<Rightarrow> duration \<Rightarrow> duration \<Rightarrow> int \<Rightarrow> duration outcome" where
  "ExponentialJitterBackoff impl rs min_d max_d attemptNum =
     (let minf = f64_of_int min_d;
          mult = fmul (Pow2 attemptNum) minf
      in case cryptoRandFloat64 rs of
           Returns r \<Rightarrow>
             (let jitter = fmul r (fsub mult minf);
                  mult' = fadd mult jitter;
                  sleep = to_int64 impl mult'
              in if max_d < sleep then Returns max_d else Returns sleep)
         | Panics \<Rightarrow> Panics
         | NoReturn \<Rightarrow> NoReturn)"

section \<open>The default retry policy\<close>

text \<open>
  \<^verbatim>\<open>errors.As\<close> with a \<^verbatim>\<open>*url.Error\<close> target: the first \<^verbatim>\<open>*url.Error\<close> on the chain
  that \<^verbatim>\<open>Unwrap\<close> walks.
\<close>

fun As_URLError :: "goerr \<Rightarrow> goerr option" where
  "As_URLError (URLError op u e) = Some (URLError op u e)"
| "As_URLError (WrapError m (Some e)) = As_URLError e"
| "As_URLError (WrapError m None) = None"
| "As_URLError (ErrorString m) = None"
| "As_URLError ContextCanceled = None"
| "As_URLError DeadlineExceeded = None"
| "As_URLError UnknownAuthorityError = None"

text \<open>\<^verbatim>\<open>errors.As\<close> with an \<^verbatim>\<open>x509.UnknownAuthorityError\<close> target.\<close>

fun As_UnknownAuthorityError :: "goerr \<Rightarrow> bool" where
  "As_UnknownAuthorityError UnknownAuthorityError = True"
| "As_UnknownAuthorityError (URLError op u e) = As_UnknownAuthorityError e"
| "As_UnknownAuthorityError (WrapError m (Some e)) = As_UnknownAuthorityError e"
| "As_UnknownAuthorityError (WrapError m None) = False"
| "As_UnknownAuthorityError (ErrorString m) = False"
| "As_UnknownAuthorityError ContextCanceled = False"
| "As_UnknownAuthorityError DeadlineExceeded = False"

definition isDigit :: "char \<Rightarrow> bool" where
  "isDigit c = (c \<in> set ''0123456789'')"

text \<open>
  \<^verbatim>\<open>redirectsErrorRegex.MatchString\<close>, the pattern \<^verbatim>\<open>stopped after \d+ redirects\z\<close>:
  the text ends with \<^verbatim>\<open> redirects\<close>, before it stands a run of digits that is not
  empty, and before the whole run stands \<^verbatim>\<open>stopped after \<close>. The text is read from
  its end.
\<close>

definition redirectsErrorRegex :: "string \<Rightarrow> bool" where
  "redirectsErrorRegex s =
     (let r = rev s
      in HasPrefix r (rev '' redirects'') \<and>
         (let r1 = drop (length '' redirects'') r
          in takeWhile isDigit r1 \<noteq> [] \<and>
             HasPrefix (dropWhile isDigit r1) (rev ''stopped after '')))"

text \<open>\<^verbatim>\<open>schemeErrorRegex.MatchString\<close>, the pattern \<^verbatim>\<open>unsupported protocol scheme\<close>.\<close>

definition schemeErrorRegex :: "string \<Rightarrow> bool" where
  "schemeErrorRegex s = Contains s ''unsupported protocol scheme''"

definition isRedirectError :: "goerr \<Rightarrow> bool" where
  "isRedirectError err = redirectsErrorRegex (Error err)"

definition isSchemeError :: "goerr \<Rightarrow> bool" where
  "isSchemeError err = schemeErrorRegex (Error err)"

text \<open>The argument is a \<^verbatim>\<open>*url.Error\<close>; the search starts at its field \<^verbatim>\<open>Err\<close>.\<close>

fun isUnknownAuthorityError :: "goerr \<Rightarrow> bool" where
  "isUnknownAuthorityError (URLError op u e) = As_UnknownAuthorityError e"
| "isUnknownAuthorityError x = False"

definition CheckRecoverableErrors :: CheckRetry where
  "CheckRecoverableErrors ctx resp err =
     (if ctxErr ctx \<noteq> None then (False, ctxErr ctx)
      else case err of
             None \<Rightarrow> (False, None)
           | Some x \<Rightarrow>
               (case As_URLError x of
                  Some urlErr \<Rightarrow>
                    if isRedirectError urlErr \<or> isSchemeError urlErr
                       \<or> isUnknownAuthorityError urlErr
                    then (False, None)
                    else (True, None)
                | None \<Rightarrow> (True, None)))"

definition DefaultRetryPolicy :: CheckRetry where
  "DefaultRetryPolicy = CheckRecoverableErrors"

section \<open>\<^verbatim>\<open>New\<close>\<close>

definition DefaultHTTPClient :: http_client where
  "DefaultHTTPClient =
     \<lparr>Transport = Some \<lparr>DisableKeepAlives = True, MaxConnsPerHost = 0,
                         MaxIdleConnsPerHost = - 1\<rparr>,
      ClientTimeout = 0\<rparr>"

text \<open>Go's division and remainder of integers: the quotient is cut towards zero.\<close>

definition quo :: "int \<Rightarrow> int \<Rightarrow> int" where
  "quo a b = sgn a * sgn b * (\<bar>a\<bar> div \<bar>b\<bar>)"

definition rem :: "int \<Rightarrow> int \<Rightarrow> int" where
  "rem a b = a - b * quo a b"

text \<open>
  \<^verbatim>\<open>Duration.Seconds\<close> of the standard library:
  \<^verbatim>\<open>sec := d / Second; nsec := d % Second; return float64(sec) + float64(nsec)/1e9\<close>.
\<close>

definition Seconds :: "duration \<Rightarrow> f64" where
  "Seconds d = fadd (f64_of_int (quo d Second)) (fdiv (f64_of_int (rem d Second)) 1000000000)"

text \<open>The constant \<^verbatim>\<open>0.3\<close> as a \<^verbatim>\<open>float64\<close>: the nearest binary64 value.\<close>

definition f64_0_3 :: f64 where
  "f64_0_3 = Finite (5404319552844595 / 2 ^ 54)"

text \<open>Line 330: \<^verbatim>\<open>time.Duration(options.Timeout.Seconds()*0.3) * time.Second\<close>.\<close>

definition adjusted_timeout :: "(f64 \<Rightarrow> int) \<Rightarrow> duration \<Rightarrow> duration" where
  "adjusted_timeout impl t = go_int (to_int64 impl (fmul (Seconds t) f64_0_3) * Second)"

definition setKillIdleConnections :: "Client \<Rightarrow> Client" where
  "setKillIdleConnections c =
     (case Transport (HTTPClient c) of
        Some b \<Rightarrow>
          c\<lparr>options := (options c)\<lparr>KillIdleConn := DisableKeepAlives b \<or> MaxConnsPerHost b < 0\<rparr>\<rparr>
      | None \<Rightarrow> c)"

text \<open>
  \<^verbatim>\<open>New\<close>. \<open>h2\<close> is what \<^verbatim>\<open>http2.ConfigureTransport\<close> returns; with an error \<^verbatim>\<open>New\<close>
  returns it at once. Neither hook nor an error handler is set by \<^verbatim>\<open>New\<close>.
\<close>

definition New :: "(f64 \<Rightarrow> int) \<Rightarrow> goerr option \<Rightarrow> Options \<Rightarrow> goerr + Client" where
  "New impl h2 opts =
     (let primary_client = (case optHTTPClient opts of Some cl \<Rightarrow> cl | None \<Rightarrow> DefaultHTTPClient);
          secondary_client = DefaultHTTPClient
      in case h2 of
           Some err \<Rightarrow> Inl err
         | None \<Rightarrow>
            (let checkRetry = (case optCheckRetry opts of Some f \<Rightarrow> f | None \<Rightarrow> DefaultRetryPolicy);
                 backoff = (case optBackoff opts of
                              Some f \<Rightarrow> f
                            | None \<Rightarrow> (\<lambda>min_d max_d n resp. DefaultBackoff impl min_d max_d n));
                 (cl1, cl2) =
                   (if 0 < Timeout opts
                    then (primary_client\<lparr>ClientTimeout := Timeout opts\<rparr>,
                          secondary_client\<lparr>ClientTimeout := Timeout opts\<rparr>)
                    else (primary_client, secondary_client));
                 cl1 = (if Second * 15 < Timeout opts \<and> 1 < RetryMax opts
                           \<and> \<not> NoAdjustTimeout opts
                        then cl1\<lparr>ClientTimeout := adjusted_timeout impl (Timeout opts)\<rparr>
                        else cl1)
             in Inr (setKillIdleConnections
                  \<lparr>HTTPClient = cl1, HTTP2Client = cl2, RequestLogHook = False,
                   ResponseLogHook = False, ErrorHandler = None, CheckRetry = checkRetry,
                   Backoff = backoff, options = opts\<rparr>)))"


text \<open>\<^verbatim>\<open>errors.Unwrap\<close>.\<close>

fun Unwrap :: "goerr \<Rightarrow> goerr option" where
  "Unwrap (WrapError m e) = e"
| "Unwrap (URLError op u e) = Some e"
| "Unwrap (ErrorString m) = None"
| "Unwrap ContextCanceled = None"
| "Unwrap DeadlineExceeded = None"
| "Unwrap UnknownAuthorityError = None"

section \<open>Concrete inputs\<close>

text \<open>
  A client with two retries, idle-kill enabled and a policy that always retries; a
  world where every transport call fails with a connection reset and the waits end
  as \<open>sel\<close> says; a GET request with an optional per-call override; a fresh state.
\<close>



definition always_retry :: CheckRetry where
  "always_retry ctx res err = (True, None)"

definition example_options :: Options where
  "example_options =
     \<lparr>optHTTPClient = None, KillIdleConn = True, RespReadLimit = 4096, Timeout = 1,
      NoAdjustTimeout = True, optCheckRetry = Some always_retry, RetryMax = 2,
      optBackoff = None, RetryWaitMin = 1000000000, RetryWaitMax = 30000000000,
      Verbose = False\<rparr>"

definition example_client :: Client where
  "example_client =
     \<lparr>HTTPClient = DefaultHTTPClient\<lparr>ClientTimeout := 1\<rparr>,
      HTTP2Client = DefaultHTTPClient\<lparr>ClientTimeout := 1\<rparr>,
      RequestLogHook = False, ResponseLogHook = False, ErrorHandler = None,
      CheckRetry = always_retry, Backoff = (\<lambda>min_d max_d n resp. min_d),
      options = example_options\<rparr>"

definition failing_env :: "(nat \<Rightarrow> select_case) \<Rightarrow> env" where
  "failing_env sel =
     \<lparr>primary = (\<lambda>i. (None, Some (ErrorString ''connection reset''))),
      digest = (\<lambda>i. (None, Some (ErrorString ''connection reset''))),
      http2 = (\<lambda>i. (None, Some (ErrorString ''connection reset''))),
      ctx_err1 = (\<lambda>i. None), ctx_err2 = (\<lambda>i. None),
      drain_fails = (\<lambda>i. False), selected = sel\<rparr>"

definition example_request :: "ctxval option \<Rightarrow> request" where
  "example_request override =
     \<lparr>Method = ''GET'', URL = ''http://example.com'',
      Context = \<lparr>ctxErr = None, ctxRetryMax = override\<rparr>, Auth = None\<rparr>"

definition initial_state :: state where
  "initial_state = \<lparr>requestCounter = 0, Failures = 0, Retries = 0, DrainErrors = 0, trace = []\<rparr>"

text \<open>
  A world where the request's context is cancelled from the start: every transport
  call fails with the \<^verbatim>\<open>*url.Error\<close> that carries \<^verbatim>\<open>context.Canceled\<close>, \<^verbatim>\<open>Err()\<close>
  of the request's context is \<^verbatim>\<open>context.Canceled\<close> at every call of \<^verbatim>\<open>CheckRetry\<close>, and
  the waits end as \<open>sel\<close> says.
\<close>

definition cancelled_env :: "(nat \<Rightarrow> select_case) \<Rightarrow> env" where
  "cancelled_env sel =
     \<lparr>primary = (\<lambda>i. (None, Some (URLError ''Get'' ''http://example.com'' ContextCanceled))),
      digest = (\<lambda>i. (None, Some (URLError ''Get'' ''http://example.com'' ContextCanceled))),
      http2 = (\<lambda>i. (None, Some (URLError ''Get'' ''http://example.com'' ContextCanceled))),
      ctx_err1 = (\<lambda>i. Some ContextCanceled), ctx_err2 = (\<lambda>i. Some ContextCanceled),
      drain_fails = (\<lambda>i. False), selected = sel\<rparr>"


section \<open>Counting attempts\<close>



lemma attempts_emit [simp]: "attempts (trace (emit ev s)) = attempts (trace s) + (if is_attempt ev then 1 else 0)"
  by (simp add: emit_def attempts_def)

lemma attempts_closeIdle [simp]: "attempts (trace (closeIdleConnections c s)) = attempts (trace s)"
  by (simp add: closeIdleConnections_def attempts_def emit_def)

lemma attempts_attempt: "attempts (trace (snd (attempt c e req i s))) = Suc (attempts (trace s))"
  by (simp add: attempt_def transport_def Let_def split_def split: option.split)

lemma attempts_drainBody [simp]: "attempts (trace (drainBody e i r s)) = attempts (trace s)"
  by (simp add: drainBody_def Let_def attempts_def emit_def)

lemma attempts_before_wait [simp]: "attempts (trace (before_wait c e i res err s)) = attempts (trace s)"
  by (simp add: before_wait_def Let_def split: option.splits)

lemma loop_stop:
  assumes "attempt c e req i s = ((res, err, False, cerr), s1)"
  shows "attempt_loop c e req N i s =
           (Return res (if cerr \<noteq> None then cerr else err), closeIdleConnections c s1)"
  using assms by (subst attempt_loop.simps) simp

lemma loop_break:
  assumes "attempt c e req i s = ((res, err, True, cerr), s1)" "N - int i \<le> 0"
  shows "attempt_loop c e req N i s = (Break res err, s1)"
  using assms by (subst attempt_loop.simps) simp

lemma loop_main:
  assumes "attempt c e req i s = ((res, err, True, cerr), s1)" "0 < N - int i"
    "selected e i = MainCtxDone"
  shows "attempt_loop c e req N i s =
           attempt_loop c e req N (Suc i) (emit (EvMainDone i) (before_wait c e i res err s1))"
  using assms by (subst attempt_loop.simps) simp

lemma loop_timer:
  assumes "attempt c e req i s = ((res, err, True, cerr), s1)" "0 < N - int i"
    "selected e i = TimerFired"
  shows "attempt_loop c e req N i s =
           attempt_loop c e req N (Suc i) (before_wait c e i res err s1)"
  using assms by (subst attempt_loop.simps) simp

lemma loop_req:
  assumes "attempt c e req i s = ((res, err, True, cerr), s1)" "0 < N - int i"
    "selected e i = ReqCtxDone x"
  shows "attempt_loop c e req N i s =
           (Return None (Some x), closeIdleConnections c (before_wait c e i res err s1))"
  using assms by (subst attempt_loop.simps) simp

lemma attempts_loop_le:
  "attempts (trace (snd (attempt_loop c e req N i s))) \<le> attempts (trace s) + nat (N - int i) + 1"
proof (induction c e req N i s rule: attempt_loop.induct)
  case (1 c e req N i s)
  obtain res err ok cerr s1 where a: "attempt c e req i s = ((res, err, ok, cerr), s1)"
    by (cases "attempt c e req i s") auto
  have s1: "attempts (trace s1) = Suc (attempts (trace s))"
    using attempts_attempt[of c e req i s] a by simp
  show ?case
  proof (cases ok)
    case False
    then show ?thesis using loop_stop[of c e req i s res err cerr s1 N] a s1 by simp
  next
    case True
    note ok = this
    show ?thesis
    proof (cases "N - int i \<le> 0")
      case True
      then show ?thesis using loop_break[of c e req i s res err cerr s1 N] a s1 ok by simp
    next
      case False
      then have pos: "0 < N - int i" by simp
      have ar: "nat (N - int (Suc i)) + 1 = nat (N - int i)" using pos by simp
      show ?thesis
      proof (cases "selected e i")
        case MainCtxDone
        have "attempts (trace (snd (attempt_loop c e req N (Suc i) (emit (EvMainDone i) (before_wait c e i res err s1)))))
             \<le> attempts (trace (emit (EvMainDone i) (before_wait c e i res err s1))) + nat (N - int (Suc i)) + 1"
          using "1.IH"(1)[OF a[symmetric] refl refl refl _ False MainCtxDone] ok by simp
        then show ?thesis
          using loop_main[of c e req i s res err cerr s1 N] a s1 ok pos MainCtxDone ar by simp
      next
        case (ReqCtxDone x)
        then show ?thesis
          using loop_req[of c e req i s res err cerr s1 N x] a s1 ok pos by simp
      next
        case TimerFired
        have "attempts (trace (snd (attempt_loop c e req N (Suc i) (before_wait c e i res err s1))))
             \<le> attempts (trace (before_wait c e i res err s1)) + nat (N - int (Suc i)) + 1"
          using "1.IH"(2)[OF a[symmetric] refl refl refl _ False TimerFired] ok by simp
        then show ?thesis
          using loop_timer[of c e req i s res err cerr s1 N] a s1 ok pos TimerFired ar by simp
      qed
    qed
  qed
qed

lemma attempts_loop_ge:
  "Suc (attempts (trace s)) \<le> attempts (trace (snd (attempt_loop c e req N i s)))"
proof (induction c e req N i s rule: attempt_loop.induct)
  case (1 c e req N i s)
  obtain res err ok cerr s1 where a: "attempt c e req i s = ((res, err, ok, cerr), s1)"
    by (cases "attempt c e req i s") auto
  have s1: "attempts (trace s1) = Suc (attempts (trace s))"
    using attempts_attempt[of c e req i s] a by simp
  show ?case
  proof (cases ok)
    case False
    then show ?thesis using loop_stop[of c e req i s res err cerr s1 N] a s1 by simp
  next
    case True
    note ok = this
    show ?thesis
    proof (cases "N - int i \<le> 0")
      case True
      then show ?thesis using loop_break[of c e req i s res err cerr s1 N] a s1 ok by simp
    next
      case False
      then have pos: "0 < N - int i" by simp
      show ?thesis
      proof (cases "selected e i")
        case MainCtxDone
        have "Suc (attempts (trace (emit (EvMainDone i) (before_wait c e i res err s1))))
             \<le> attempts (trace (snd (attempt_loop c e req N (Suc i) (emit (EvMainDone i) (before_wait c e i res err s1)))))"
          using "1.IH"(1)[OF a[symmetric] refl refl refl _ False MainCtxDone] ok by simp
        then show ?thesis
          using loop_main[of c e req i s res err cerr s1 N] a s1 ok pos MainCtxDone by simp
      next
        case (ReqCtxDone x)
        then show ?thesis
          using loop_req[of c e req i s res err cerr s1 N x] a s1 ok pos by simp
      next
        case TimerFired
        have "Suc (attempts (trace (before_wait c e i res err s1)))
             \<le> attempts (trace (snd (attempt_loop c e req N (Suc i) (before_wait c e i res err s1))))"
          using "1.IH"(2)[OF a[symmetric] refl refl refl _ False TimerFired] ok by simp
        then show ?thesis
          using loop_timer[of c e req i s res err cerr s1 N] a s1 ok pos TimerFired by simp
      qed
    qed
  qed
qed


lemma attempts_Do:
  "attempts (trace (snd (Do c e req s))) =
     attempts (trace (snd (attempt_loop c e req (effective_retryMax c req) 0 s)))"
  by (simp add: Do_def Let_def split: prod.split loop_exit.split option.split)

lemma attempt_always_ok:
  assumes "\<forall>ctx res err. CheckRetry c ctx res err = (True, None)"
  shows "\<exists>res err s1. attempt c e req i s = ((res, err, True, None), s1)"
  using assms by (simp add: attempt_def Let_def split_def split: option.split)

lemma loop_always_retry:
  assumes ok: "\<forall>ctx res err. CheckRetry c ctx res err = (True, None)"
    and sel: "\<forall>i x. selected e i \<noteq> ReqCtxDone x"
  shows "int i \<le> N \<Longrightarrow>
         \<exists>res err s1. attempt_loop c e req N i s = (Break res err, s1) \<and>
            attempts (trace s1) = attempts (trace s) + nat (N - int i) + 1"
proof (induction "nat (N - int i)" arbitrary: i s)
  case 0
  then have le: "N - int i \<le> 0" by simp
  obtain res err s1 where a: "attempt c e req i s = ((res, err, True, None), s1)"
    using attempt_always_ok[OF ok] by blast
  have "attempts (trace s1) = Suc (attempts (trace s))"
    using attempts_attempt[of c e req i s] a by simp
  then show ?case using loop_break[OF a le] 0 by simp
next
  case (Suc k)
  then have pos: "0 < N - int i" and k: "k = nat (N - int (Suc i))" and le: "int (Suc i) \<le> N"
    by auto
  obtain res err s1 where a: "attempt c e req i s = ((res, err, True, None), s1)"
    using attempt_always_ok[OF ok] by blast
  have s1: "attempts (trace s1) = Suc (attempts (trace s))"
    using attempts_attempt[of c e req i s] a by simp
  have ar: "nat (N - int (Suc i)) + 1 = nat (N - int i)" using pos by simp
  show ?case
  proof (cases "selected e i")
    case MainCtxDone
    obtain res' err' s' where
      "attempt_loop c e req N (Suc i) (emit (EvMainDone i) (before_wait c e i res err s1)) = (Break res' err', s')"
      "attempts (trace s') = attempts (trace (emit (EvMainDone i) (before_wait c e i res err s1))) + nat (N - int (Suc i)) + 1"
      using Suc.hyps(1)[OF k le] by blast
    then show ?thesis using loop_main[OF a pos MainCtxDone] s1 ar by simp
  next
    case (ReqCtxDone x)
    then show ?thesis using sel by simp
  next
    case TimerFired
    obtain res' err' s' where
      "attempt_loop c e req N (Suc i) (before_wait c e i res err s1) = (Break res' err', s')"
      "attempts (trace s') = attempts (trace (before_wait c e i res err s1)) + nat (N - int (Suc i)) + 1"
      using Suc.hyps(1)[OF k le] by blast
    then show ?thesis using loop_timer[OF a pos TimerFired] s1 ar by simp
  qed
qed

text \<open>The loop gets to iteration i when every earlier pass decides to retry and no earlier wait ends by the request's context.\<close>

lemma loop_reaches:
  assumes ok: "\<forall>j<i. \<forall>s'. fst (snd (snd (fst (attempt c e req j s'))))"
    and sel: "\<forall>j<i. \<forall>x. selected e j \<noteq> ReqCtxDone x"
    and le: "int i \<le> N"
  shows "\<exists>si. attempt_loop c e req N 0 s = attempt_loop c e req N i si \<and>
              attempts (trace si) = attempts (trace s) + i"
  using assms
proof (induction i)
  case 0
  show ?case by (rule exI[of _ s]) simp
next
  case (Suc i)
  then obtain si where si: "attempt_loop c e req N 0 s = attempt_loop c e req N i si"
      "attempts (trace si) = attempts (trace s) + i"
    by force
  obtain res err okk cerr s1 where a0: "attempt c e req i si = ((res, err, okk, cerr), s1)"
    by (cases "attempt c e req i si") auto
  have "fst (snd (snd (fst (attempt c e req i si))))" using Suc.prems(1) by simp
  then have a: "attempt c e req i si = ((res, err, True, cerr), s1)" using a0 by simp
  have s1: "attempts (trace s1) = Suc (attempts (trace si))"
    using attempts_attempt[of c e req i si] a by simp
  have pos: "0 < N - int i" using Suc.prems(3) by simp
  show ?case
  proof (cases "selected e i")
    case MainCtxDone
    show ?thesis
      using loop_main[OF a pos MainCtxDone] si s1
      by (intro exI[of _ "emit (EvMainDone i) (before_wait c e i res err s1)"]) simp
  next
    case (ReqCtxDone x)
    then show ?thesis using Suc.prems(2) by simp
  next
    case TimerFired
    show ?thesis
      using loop_timer[OF a pos TimerFired] si s1
      by (intro exI[of _ "before_wait c e i res err s1"]) simp
  qed
qed

lemma Do_Return:
  assumes "attempt_loop c e req (effective_retryMax c req) 0 s = (Return r x, s1)"
  shows "Do c e req s = ((r, x), s1)"
  using assms by (simp add: Do_def)




lemmas example_defs =
  example_client_def example_options_def failing_env_def example_request_def
  initial_state_def always_retry_def

section \<open>The idle-connection counter\<close>

lemma closures_emit [simp]:
  "closures (trace (emit ev s)) = closures (trace s) + (if ev = EvCloseIdleConnections then 1 else 0)"
  by (simp add: emit_def closures_def)

lemma closeIdleConnections_below:
  assumes "KillIdleConn (options c)" "n \<le> 100" "requestCounter s = 0"
  shows "(closeIdleConnections c ^^ n) s = s\<lparr>requestCounter := of_nat n\<rparr>"
  using assms(2)
proof (induction n)
  case 0
  then show ?case using assms(3) by simp
next
  case (Suc n)
  then have n: "n < 100" by simp
  have "(of_nat n :: 32 word) < 100"
    using n by (simp add: word_less_nat_alt unat_of_nat)
  then show ?case using Suc assms(1)
    by (simp add: closeIdleConnections_def closeConnectionsCounter_def)
qed

lemma closeIdleConnections_next:
  assumes "KillIdleConn (options c)" "requestCounter s = 0"
  shows "(closeIdleConnections c ^^ 101) s = emit EvCloseIdleConnections s"
proof -
  have "(closeIdleConnections c ^^ 101) s
          = closeIdleConnections c ((closeIdleConnections c ^^ 100) s)"
    by (simp add: numeral_eq_Suc)
  also have "\<dots> = closeIdleConnections c (s\<lparr>requestCounter := 100\<rparr>)"
    using closeIdleConnections_below[OF assms(1) _ assms(2), of 100] by simp
  also have "\<dots> = emit EvCloseIdleConnections s"
    using assms by (simp add: closeIdleConnections_def closeConnectionsCounter_def emit_def)
  finally show ?thesis .
qed

text \<open>
  C3, as stated: with the idle-kill flag enabled and the counter at zero, exactly 100
  calls of \<^verbatim>\<open>closeIdleConnections\<close> force one closure of the idle connections and leave
  the counter at zero. On the code this fails: each of the first 100 calls finds the
  counter below 100 and only increments it, so after 100 calls no closure has happened
  and the counter is 100.
\<close>

theorem closeIdleConnections_100_counterexample:
  "KillIdleConn (options example_client) \<and> requestCounter initial_state = 0 \<and>
   closures (trace ((closeIdleConnections example_client ^^ 100) initial_state)) = 0 \<and>
   requestCounter ((closeIdleConnections example_client ^^ 100) initial_state) = 100 \<and>
   \<not> (closures (trace ((closeIdleConnections example_client ^^ 100) initial_state)) = 1 \<and>
      requestCounter ((closeIdleConnections example_client ^^ 100) initial_state) = 0)"
proof -
  have k: "KillIdleConn (options example_client)"
    by (simp add: example_client_def example_options_def)
  have z: "requestCounter initial_state = 0"
    by (simp add: initial_state_def)
  have "(closeIdleConnections example_client ^^ 100) initial_state
          = initial_state\<lparr>requestCounter := 100\<rparr>"
    using closeIdleConnections_below[OF k _ z, of 100] by simp
  then show ?thesis using k z by (simp add: closures_def initial_state_def)
qed

text \<open>
  C3, amended: with the idle-kill flag enabled and the counter at zero, the first 100
  calls of \<^verbatim>\<open>closeIdleConnections\<close> close nothing and count up to 100; the call after
  them, the 101st, forces the one closure and resets the counter to zero.
\<close>

theorem closeIdleConnections_101:
  assumes "KillIdleConn (options c)" and "requestCounter s = 0"
  shows "(\<forall>n\<le>100. closures (trace ((closeIdleConnections c ^^ n) s)) = closures (trace s)
             \<and> requestCounter ((closeIdleConnections c ^^ n) s) = of_nat n) \<and>
         closures (trace ((closeIdleConnections c ^^ 101) s)) = closures (trace s) + 1 \<and>
         requestCounter ((closeIdleConnections c ^^ 101) s) = 0"
proof -
  have "\<forall>n\<le>100. (closeIdleConnections c ^^ n) s = s\<lparr>requestCounter := of_nat n\<rparr>"
    using closeIdleConnections_below[OF assms(1) _ assms(2)] by blast
  moreover have "(closeIdleConnections c ^^ 101) s = emit EvCloseIdleConnections s"
    by (rule closeIdleConnections_next[OF assms])
  ultimately show ?thesis using assms(2) by (simp add: emit_def closures_def)
qed

theorem closeIdleConnections_101_witness:
  "KillIdleConn (options example_client) \<and> requestCounter initial_state = 0 \<and>
   closures (trace ((closeIdleConnections example_client ^^ 100) initial_state)) = 0 \<and>
   requestCounter ((closeIdleConnections example_client ^^ 100) initial_state) = 100 \<and>
   closures (trace ((closeIdleConnections example_client ^^ 101) initial_state)) = 1 \<and>
   requestCounter ((closeIdleConnections example_client ^^ 101) initial_state) = 0"
proof -
  have k: "KillIdleConn (options example_client)"
    by (simp add: example_client_def example_options_def)
  have z: "requestCounter initial_state = 0"
    by (simp add: initial_state_def)
  have t: "closures (trace initial_state) = 0"
    by (simp add: initial_state_def closures_def)
  show ?thesis
    using closeIdleConnections_101[OF k z] k z t by simp
qed

section \<open>The attempt loop\<close>

lemma attempt_example:
  "attempt example_client (failing_env sel) (example_request ov) i s =
     ((None, Some (ErrorString ''connection reset''), True, None),
      (emit (EvPrimary i) s)\<lparr>Failures := Failures s + 1\<rparr>)"
  by (simp add: attempt_def transport_def hasAuth_def example_defs malformedHTTP2_def emit_def)

text \<open>
  C10: \<^verbatim>\<open>Do\<close> makes at least one transport attempt whatever the effective retry
  maximum is, and with a maximum of zero or below (also one that comes from the
  per-call override in the request's context) it makes exactly one: the budget is
  looked at only after the attempt and the retry decision. An attempt is one pass of
  the loop with its call of the primary or the digest transport.
\<close>

theorem Do_at_least_one_attempt:
  "Suc (attempts (trace s)) \<le> attempts (trace (snd (Do c e req s))) \<and>
   (effective_retryMax c req \<le> 0 \<longrightarrow>
      attempts (trace (snd (Do c e req s))) = Suc (attempts (trace s)))"
proof -
  let ?N = "effective_retryMax c req"
  have ge: "Suc (attempts (trace s)) \<le> attempts (trace (snd (attempt_loop c e req ?N 0 s)))"
    by (rule attempts_loop_ge)
  have le: "attempts (trace (snd (attempt_loop c e req ?N 0 s)))
              \<le> attempts (trace s) + nat (?N - int 0) + 1"
    by (rule attempts_loop_le)
  show ?thesis using ge le by (auto simp add: attempts_Do)
qed

theorem Do_at_least_one_attempt_witness:
  "effective_retryMax example_client (example_request (Some (IntVal (- 3)))) \<le> 0 \<and>
   attempts (trace (snd (Do example_client (failing_env (\<lambda>i. TimerFired))
      (example_request (Some (IntVal (- 3)))) initial_state))) = 1"
proof -
  have n: "effective_retryMax example_client (example_request (Some (IntVal (- 3)))) \<le> 0"
    by (simp add: effective_retryMax_def example_request_def)
  have t: "attempts (trace initial_state) = 0"
    by (simp add: initial_state_def attempts_def)
  show ?thesis
    using Do_at_least_one_attempt[of initial_state example_client "failing_env (\<lambda>i. TimerFired)"
        "example_request (Some (IntVal (- 3)))"] n t
    by simp
qed

text \<open>
  C2, as stated: for every retry budget \<open>N \<ge> 0\<close>, a policy that always answers
  \<^verbatim>\<open>(true, nil)\<close> makes \<^verbatim>\<open>Do\<close> perform exactly \<open>N + 1\<close> attempts and then give up.
  On the code this fails when the request's context is done during a wait: with a
  budget of 2 and the first wait ended by the request's context, \<^verbatim>\<open>Do\<close> returns the
  context's error after one attempt.
\<close>

theorem Do_always_retry_counterexample:
  "CheckRetry example_client = always_retry \<and>
   effective_retryMax example_client (example_request None) = 2 \<and>
   attempts (trace (snd (Do example_client (failing_env (\<lambda>i. ReqCtxDone ContextCanceled))
      (example_request None) initial_state))) = 1 \<and>
   fst (Do example_client (failing_env (\<lambda>i. ReqCtxDone ContextCanceled))
      (example_request None) initial_state) = (None, Some ContextCanceled)"
proof -
  let ?e = "failing_env (\<lambda>i. ReqCtxDone ContextCanceled)"
  have n: "effective_retryMax example_client (example_request None) = 2"
    by (simp add: effective_retryMax_def example_defs)
  have sel: "selected ?e 0 = ReqCtxDone ContextCanceled"
    by (simp add: failing_env_def)
  have l: "attempt_loop example_client ?e (example_request None) 2 0 initial_state =
        (Return None (Some ContextCanceled),
         closeIdleConnections example_client
           (before_wait example_client ?e 0 None (Some (ErrorString ''connection reset''))
              ((emit (EvPrimary 0) initial_state)\<lparr>Failures := Failures initial_state + 1\<rparr>)))"
    by (rule loop_req[OF attempt_example _ sel]) simp
  have d: "Do example_client ?e (example_request None) initial_state =
        ((None, Some ContextCanceled),
         closeIdleConnections example_client
           (before_wait example_client ?e 0 None (Some (ErrorString ''connection reset''))
              ((emit (EvPrimary 0) initial_state)\<lparr>Failures := Failures initial_state + 1\<rparr>)))"
    by (rule Do_Return) (simp add: n l)
  have c: "CheckRetry example_client = always_retry"
    by (simp add: example_client_def)
  show ?thesis using n c
    by (simp add: d) (simp add: attempts_def initial_state_def)
qed

text \<open>
  C2, amended: for every retry budget \<open>N \<ge> 0\<close> the number of attempts of \<^verbatim>\<open>Do\<close> is
  at most \<open>N + 1\<close>; and if the policy always answers \<^verbatim>\<open>(true, nil)\<close> and no wait is
  ended by the request's own context, \<^verbatim>\<open>Do\<close> performs exactly \<open>N + 1\<close> attempts and
  the loop ends by its \<^verbatim>\<open>break\<close>, the path that gives up.
\<close>

theorem Do_attempts_bound:
  assumes "0 \<le> effective_retryMax c req"
  shows "attempts (trace (snd (Do c e req s)))
           \<le> attempts (trace s) + nat (effective_retryMax c req) + 1 \<and>
         ((\<forall>ctx res err. CheckRetry c ctx res err = (True, None)) \<and>
          (\<forall>i x. selected e i \<noteq> ReqCtxDone x) \<longrightarrow>
            attempts (trace (snd (Do c e req s)))
              = attempts (trace s) + nat (effective_retryMax c req) + 1 \<and>
            (\<exists>res err s1.
               attempt_loop c e req (effective_retryMax c req) 0 s = (Break res err, s1)))"
proof -
  let ?N = "effective_retryMax c req"
  have le: "attempts (trace (snd (attempt_loop c e req ?N 0 s)))
              \<le> attempts (trace s) + nat (?N - int 0) + 1"
    by (rule attempts_loop_le)
  have ex: "attempts (trace (snd (Do c e req s))) = attempts (trace s) + nat ?N + 1 \<and>
            (\<exists>res err s1. attempt_loop c e req ?N 0 s = (Break res err, s1))"
    if ok: "\<forall>ctx res err. CheckRetry c ctx res err = (True, None)"
      and sel: "\<forall>i x. selected e i \<noteq> ReqCtxDone x"
  proof -
    have "int 0 \<le> ?N" using assms by simp
    from loop_always_retry[OF ok sel this, of req s]
    obtain res err s1 where
      "attempt_loop c e req ?N 0 s = (Break res err, s1)"
      "attempts (trace s1) = attempts (trace s) + nat (?N - int 0) + 1"
      by blast
    then show ?thesis by (simp add: attempts_Do)
  qed
  show ?thesis using le ex by (simp add: attempts_Do)
qed

theorem Do_attempts_bound_witness:
  "0 \<le> effective_retryMax example_client (example_request None) \<and>
   (\<forall>ctx res err. CheckRetry example_client ctx res err = (True, None)) \<and>
   (\<forall>i x. selected (failing_env (\<lambda>i. TimerFired)) i \<noteq> ReqCtxDone x) \<and>
   attempts (trace (snd (Do example_client (failing_env (\<lambda>i. TimerFired))
      (example_request None) initial_state))) = 3"
proof -
  have n: "effective_retryMax example_client (example_request None) = 2"
    by (simp add: effective_retryMax_def example_defs)
  have ok: "\<forall>ctx res err. CheckRetry example_client ctx res err = (True, None)"
    by (simp add: example_client_def always_retry_def)
  have sel: "\<forall>i x. selected (failing_env (\<lambda>i. TimerFired)) i \<noteq> ReqCtxDone x"
    by (simp add: failing_env_def)
  have t: "attempts (trace initial_state) = 0"
    by (simp add: initial_state_def attempts_def)
  have "0 \<le> effective_retryMax example_client (example_request None)" using n by simp
  from Do_attempts_bound[OF this, of "failing_env (\<lambda>i. TimerFired)" initial_state]
  show ?thesis using n ok sel t by simp
qed

text \<open>
  The case of the \<^verbatim>\<open>select\<close> for the request's context: if the policy has asked for
  a retry at every pass up to pass \<open>i\<close>, budget is left, no earlier wait was ended by
  the request's context, and the \<^verbatim>\<open>select\<close> after pass \<open>i\<close> takes the case of the
  request's context, with error \<open>x\<close>, then \<^verbatim>\<open>Do\<close> returns a nil response and \<open>x\<close>
  right after the bookkeeping of \<^verbatim>\<open>closeIdleConnections\<close>, and the attempts are the
  \<open>i + 1\<close> made so far. Which case the \<^verbatim>\<open>select\<close> takes is not in the hands of the
  code when the main context is done as well.
\<close>

theorem Do_request_context_done:
  assumes ok: "\<forall>j\<le>i. \<forall>s'. fst (snd (snd (fst (attempt c e req j s'))))"
    and sel: "\<forall>j<i. \<forall>y. selected e j \<noteq> ReqCtxDone y"
    and budget: "int i < effective_retryMax c req"
    and fired: "selected e i = ReqCtxDone x"
  shows "fst (Do c e req s) = (None, Some x) \<and>
         attempts (trace (snd (Do c e req s))) = attempts (trace s) + i + 1 \<and>
         (\<exists>s'. snd (Do c e req s) = closeIdleConnections c s')"
proof -
  let ?N = "effective_retryMax c req"
  have ok': "\<forall>j<i. \<forall>s'. fst (snd (snd (fst (attempt c e req j s'))))"
    using ok by simp
  have "int i \<le> ?N" using budget by simp
  from loop_reaches[OF ok' sel this, of s]
  obtain si where si: "attempt_loop c e req ?N 0 s = attempt_loop c e req ?N i si"
    "attempts (trace si) = attempts (trace s) + i"
    by blast
  obtain res err okk cerr s1 where a0: "attempt c e req i si = ((res, err, okk, cerr), s1)"
    by (cases "attempt c e req i si") auto
  have "fst (snd (snd (fst (attempt c e req i si))))" using ok by simp
  then have a: "attempt c e req i si = ((res, err, True, cerr), s1)" using a0 by simp
  have s1: "attempts (trace s1) = Suc (attempts (trace si))"
    using attempts_attempt[of c e req i si] a by simp
  have pos: "0 < ?N - int i" using budget by simp
  have l: "attempt_loop c e req ?N 0 s =
      (Return None (Some x), closeIdleConnections c (before_wait c e i res err s1))"
    using loop_req[OF a pos fired] si(1) by simp
  have d: "Do c e req s =
      ((None, Some x), closeIdleConnections c (before_wait c e i res err s1))"
    by (rule Do_Return[OF l])
  show ?thesis using s1 si(2) by (auto simp add: d)
qed

theorem Do_request_context_done_witness:
  "CheckRetry example_client = always_retry \<and>
   selected (failing_env (\<lambda>i. if i = 1 then ReqCtxDone ContextCanceled else TimerFired)) 0
     = TimerFired \<and>
   int 1 < effective_retryMax example_client (example_request None) \<and>
   selected (failing_env (\<lambda>i. if i = 1 then ReqCtxDone ContextCanceled else TimerFired)) 1
     = ReqCtxDone ContextCanceled \<and>
   fst (Do example_client
        (failing_env (\<lambda>i. if i = 1 then ReqCtxDone ContextCanceled else TimerFired))
        (example_request None) initial_state) = (None, Some ContextCanceled) \<and>
   attempts (trace (snd (Do example_client
        (failing_env (\<lambda>i. if i = 1 then ReqCtxDone ContextCanceled else TimerFired))
        (example_request None) initial_state))) = 2"
proof -
  let ?e = "failing_env (\<lambda>i. if i = 1 then ReqCtxDone ContextCanceled else TimerFired)"
  have ok: "\<forall>j\<le>1. \<forall>s'. fst (snd (snd (fst (attempt example_client ?e (example_request None) j s'))))"
    by (simp add: attempt_example)
  have sel: "\<forall>j<1. \<forall>y. selected ?e j \<noteq> ReqCtxDone y"
    by (simp add: failing_env_def)
  have n: "int 1 < effective_retryMax example_client (example_request None)"
    by (simp add: effective_retryMax_def example_defs)
  have d: "selected ?e 1 = ReqCtxDone ContextCanceled"
    by (simp add: failing_env_def)
  have t: "attempts (trace initial_state) = 0"
    by (simp add: initial_state_def attempts_def)
  have c: "CheckRetry example_client = always_retry"
    by (simp add: example_client_def)
  have s0: "selected ?e 0 = TimerFired"
    by (simp add: failing_env_def)
  from Do_request_context_done[OF ok sel n d, of initial_state]
  show ?thesis using c s0 n d t by simp
qed

section \<open>Giving up\<close>

lemma HasPrefix_append [simp]: "HasPrefix (p @ s) p"
  by (induction p) simp_all

lemma Contains_prefix: "HasPrefix s p \<Longrightarrow> Contains s p"
  by (cases s) (auto elim: HasPrefix.elims)

lemma Contains_append_right: "Contains s p \<Longrightarrow> Contains (a @ s) p"
proof (induction a)
  case Nil
  then show ?case by simp
next
  case (Cons c a)
  then show ?case by simp
qed

lemma Contains_middle: "Contains (a @ p @ b) p"
  by (rule Contains_append_right, rule Contains_prefix) simp

lemma go_int_id: "is_int64 x \<Longrightarrow> go_int x = x"
  by (simp add: go_int_def is_int64_def)

text \<open>
  C7: when the loop ends by its \<^verbatim>\<open>break\<close> (the retry budget is spent) with the last
  response \<open>res\<close> and the last error \<open>err\<close>, and no \<^verbatim>\<open>ErrorHandler\<close> is set, \<^verbatim>\<open>Do\<close>
  closes the body of \<open>res\<close> if there is one, does the bookkeeping of
  \<^verbatim>\<open>closeIdleConnections\<close>, and returns a nil response and an error whose message
  contains the request's method, its URL and the attempt count, the effective retry
  maximum plus one as an \<^verbatim>\<open>int\<close>, and which unwraps to \<open>err\<close>. When an
  \<^verbatim>\<open>ErrorHandler\<close> is set, the pair it returns for \<open>res\<close>, \<open>err\<close> and that same count
  is the result.
\<close>

theorem Do_giving_up:
  assumes "attempt_loop c e req (effective_retryMax c req) 0 s = (Break res err, s1)"
    and "n = go_int (effective_retryMax c req + 1)"
  shows "(ErrorHandler c = None \<longrightarrow>
            fst (Do c e req s) = (None, Some (giving_up (Method req) (URL req) n err)) \<and>
            snd (Do c e req s) =
              closeIdleConnections c
                (case res of Some r \<Rightarrow> emit (EvBodyClose r) s1 | None \<Rightarrow> s1)) \<and>
         (\<forall>handler. ErrorHandler c = Some handler \<longrightarrow>
            fst (Do c e req s) = handler res err n \<and>
            snd (Do c e req s) = closeIdleConnections c s1) \<and>
         Contains (Error (giving_up (Method req) (URL req) n err)) (Method req) \<and>
         Contains (Error (giving_up (Method req) (URL req) n err)) (URL req) \<and>
         Contains (Error (giving_up (Method req) (URL req) n err)) (Itoa n) \<and>
         Unwrap (giving_up (Method req) (URL req) n err) = err \<and>
         (is_int64 (effective_retryMax c req + 1) \<longrightarrow> n = effective_retryMax c req + 1)"
proof -
  have d1: "ErrorHandler c = None \<Longrightarrow>
      Do c e req s = ((None, Some (giving_up (Method req) (URL req) n err)),
        closeIdleConnections c (case res of Some r \<Rightarrow> emit (EvBodyClose r) s1 | None \<Rightarrow> s1))"
    using assms by (simp add: Do_def Let_def)
  have d2: "ErrorHandler c = Some handler \<Longrightarrow>
      Do c e req s = (handler res err n, closeIdleConnections c s1)" for handler
    using assms by (simp add: Do_def Let_def)
  have m1: "Contains (Error (giving_up (Method req) (URL req) n err)) (Method req)"
    using Contains_middle[of "[]" "Method req"] by (simp add: giving_up_def)
  have m2: "Contains (Error (giving_up (Method req) (URL req) n err)) (URL req)"
    using Contains_middle[of "Method req @ '' ''" "URL req"] by (simp add: giving_up_def)
  have m3: "Contains (Error (giving_up (Method req) (URL req) n err)) (Itoa n)"
    using Contains_middle[of "Method req @ '' '' @ URL req @ '' giving up after ''" "Itoa n"]
    by (simp add: giving_up_def)
  have u: "Unwrap (giving_up (Method req) (URL req) n err) = err"
    by (simp add: giving_up_def)
  have i: "is_int64 (effective_retryMax c req + 1) \<Longrightarrow> n = effective_retryMax c req + 1"
    using assms(2) go_int_id by simp
  show ?thesis using d1 d2 m1 m2 m3 u i by simp
qed

theorem Do_giving_up_witness:
  "attempt_loop example_client (failing_env (\<lambda>i. TimerFired)) (example_request None)
      (effective_retryMax example_client (example_request None)) 0 initial_state
    = (Break None (Some (ErrorString ''connection reset'')),
       \<lparr>requestCounter = 0, Failures = 3, Retries = 2, DrainErrors = 0,
        trace = [EvPrimary 0, EvTimer 1000000000, EvPrimary 1, EvTimer 1000000000,
                 EvPrimary 2]\<rparr>) \<and>
   ErrorHandler example_client = None \<and>
   fst (Do example_client (failing_env (\<lambda>i. TimerFired)) (example_request None) initial_state)
    = (None,
       Some (WrapError ''GET http://example.com giving up after 3 attempts: connection reset''
              (Some (ErrorString ''connection reset'')))) \<and>
   ErrorHandler (example_client\<lparr>ErrorHandler := Some (\<lambda>res err n. (res, err))\<rparr>)
    = Some (\<lambda>res err n. (res, err)) \<and>
   fst (Do (example_client\<lparr>ErrorHandler := Some (\<lambda>res err n. (res, err))\<rparr>)
          (failing_env (\<lambda>i. TimerFired)) (example_request None) initial_state)
    = (None, Some (ErrorString ''connection reset''))"
proof -
  let ?e = "failing_env (\<lambda>i. TimerFired)"
  let ?s1 = "\<lparr>requestCounter = 0, Failures = 3, Retries = 2, DrainErrors = 0,
        trace = [EvPrimary 0, EvTimer 1000000000, EvPrimary 1, EvTimer 1000000000,
                 EvPrimary 2]\<rparr>"
  let ?c2 = "example_client\<lparr>ErrorHandler := Some (\<lambda>res err n. (res, err))\<rparr>"
  have l: "attempt_loop example_client ?e (example_request None)
      (effective_retryMax example_client (example_request None)) 0 initial_state
    = (Break None (Some (ErrorString ''connection reset'')), ?s1)"
    by code_simp
  have l2: "attempt_loop ?c2 ?e (example_request None)
      (effective_retryMax ?c2 (example_request None)) 0 initial_state
    = (Break None (Some (ErrorString ''connection reset'')), ?s1)"
    by code_simp
  have h: "ErrorHandler example_client = None"
    by (simp add: example_client_def)
  have n: "go_int (effective_retryMax example_client (example_request None) + 1) = 3"
    by (simp add: effective_retryMax_def example_defs go_int_def)
  have g: "giving_up (Method (example_request None)) (URL (example_request None)) 3
             (Some (ErrorString ''connection reset''))
           = WrapError ''GET http://example.com giving up after 3 attempts: connection reset''
              (Some (ErrorString ''connection reset''))"
    by (simp add: giving_up_def example_request_def Itoa_def)
  have a: "fst (Do example_client ?e (example_request None) initial_state)
    = (None, Some (giving_up (Method (example_request None)) (URL (example_request None)) 3
             (Some (ErrorString ''connection reset''))))"
    using Do_giving_up[OF l n[symmetric]] h by simp
  have b: "fst (Do ?c2 ?e (example_request None) initial_state)
    = (None, Some (ErrorString ''connection reset''))"
    using Do_giving_up[OF l2 refl] by simp
  show ?thesis using l h a b by (simp add: g)
qed

section \<open>The overall deadline\<close>

text \<open>
  C4: once the overall deadline of \<^verbatim>\<open>Options.Timeout\<close>, carried by the main context,
  has passed, \<^verbatim>\<open>Do\<close> should make no further attempt. The comment above the
  \<^verbatim>\<open>select\<close> says so (\<^verbatim>\<open>Exit if the main context or the request context is done\<close>),
  but the case of the main context only leaves the \<^verbatim>\<open>select\<close>, and the loop goes on.
  With a budget of two retries, a transport that always fails, a policy that always
  retries and every wait ended by the main context, the log shows attempts 1 and 2
  after the main context was found done, and \<^verbatim>\<open>Do\<close> gives up after three attempts.
\<close>

theorem Do_continues_after_main_deadline:
  "trace (snd (Do example_client (failing_env (\<lambda>i. MainCtxDone)) (example_request None)
      initial_state))
    = [EvPrimary 0, EvTimer 1000000000, EvMainDone 0, EvPrimary 1, EvTimer 1000000000,
       EvMainDone 1, EvPrimary 2] \<and>
   fst (Do example_client (failing_env (\<lambda>i. MainCtxDone)) (example_request None)
      initial_state)
    = (None,
       Some (WrapError ''GET http://example.com giving up after 3 attempts: connection reset''
              (Some (ErrorString ''connection reset''))))"
  by code_simp

text \<open>
  C6: once the request's own context is done, \<^verbatim>\<open>Do\<close> should return a nil response
  and the context's error and make no further attempt: a cancelled request is never
  retried past its cancellation. The comments of the loop say so
  (\<^verbatim>\<open>If the context is cancelled however, return\<close>), but the \<^verbatim>\<open>select\<close> has the
  case of the main context before it, which only leaves the \<^verbatim>\<open>select\<close>; when both
  contexts are done the \<^verbatim>\<open>select\<close> may take that case, and the loop goes on. With
  the request cancelled from the start, a budget of two retries, a policy that always
  retries and every \<^verbatim>\<open>select\<close> taking the case of the main context, \<^verbatim>\<open>Do\<close> makes
  attempts 1 and 2 after the cancellation and reports that it gives up after three
  attempts, not the cancellation. It is the defect of C4.
\<close>

theorem Do_retries_cancelled_request:
  "ctx_err1 (cancelled_env (\<lambda>i. MainCtxDone)) 0 = Some ContextCanceled \<and>
   trace (snd (Do example_client (cancelled_env (\<lambda>i. MainCtxDone)) (example_request None)
      initial_state))
    = [EvPrimary 0, EvTimer 1000000000, EvMainDone 0, EvPrimary 1, EvTimer 1000000000,
       EvMainDone 1, EvPrimary 2] \<and>
   attempts (trace (snd (Do example_client (cancelled_env (\<lambda>i. MainCtxDone))
      (example_request None) initial_state))) = 3 \<and>
   fst (Do example_client (cancelled_env (\<lambda>i. MainCtxDone)) (example_request None)
      initial_state)
    = (None,
       Some (giving_up ''GET'' ''http://example.com'' 3
              (Some (URLError ''Get'' ''http://example.com'' ContextCanceled)))) \<and>
   fst (Do example_client (cancelled_env (\<lambda>i. MainCtxDone)) (example_request None)
      initial_state) \<noteq> (None, Some ContextCanceled)"
  by code_simp

section \<open>The default retry policy classifies\<close>

text \<open>
  What the two matchers accept, in the words of their patterns: the text contains
  \<^verbatim>\<open>unsupported protocol scheme\<close>; the text ends with \<^verbatim>\<open>stopped after \<close>, one or
  more digits and \<^verbatim>\<open> redirects\<close>.
\<close>


lemma HasPrefix_iff: "HasPrefix s p \<longleftrightarrow> (\<exists>b. s = p @ b)"
  by (induction s p rule: HasPrefix.induct) auto

lemma Contains_iff: "Contains s p \<longleftrightarrow> (\<exists>a b. s = a @ p @ b)"
proof (induction s)
  case Nil
  then show ?case by auto
next
  case (Cons c s)
  show ?case
  proof
    assume "Contains (c # s) p"
    then consider "HasPrefix (c # s) p" | "Contains s p" by auto
    then show "\<exists>a b. c # s = a @ p @ b"
    proof cases
      case 1
      then obtain b where "c # s = p @ b" using HasPrefix_iff by blast
      then show ?thesis by (intro exI[of _ "[]"] exI[of _ b]) simp
    next
      case 2
      then obtain a b where "s = a @ p @ b" using Cons.IH by blast
      then show ?thesis by (intro exI[of _ "c # a"] exI[of _ b]) simp
    qed
  next
    assume "\<exists>a b. c # s = a @ p @ b"
    then obtain a b where ab: "c # s = a @ p @ b" by blast
    show "Contains (c # s) p"
    proof (cases a)
      case Nil
      then have "HasPrefix (c # s) p" using ab HasPrefix_iff by auto
      then show ?thesis by simp
    next
      case (Cons a0 a')
      then have "s = a' @ p @ b" using ab by simp
      then have "Contains s p" using Cons.IH by blast
      then show ?thesis by simp
    qed
  qed
qed

lemma takeWhile_stop: "\<forall>c\<in>set xs. P c \<Longrightarrow> \<not> P y \<Longrightarrow> takeWhile P (xs @ y # ys) = xs"
  by (induction xs) auto

lemma dropWhile_stop: "\<forall>c\<in>set xs. P c \<Longrightarrow> \<not> P y \<Longrightarrow> dropWhile P (xs @ y # ys) = y # ys"
  by (induction xs) auto

lemma schemeErrorRegex_iff:
  "schemeErrorRegex s \<longleftrightarrow> (\<exists>a b. s = a @ ''unsupported protocol scheme'' @ b)"
  by (simp add: schemeErrorRegex_def Contains_iff)

lemma redirectsErrorRegex_iff:
  "redirectsErrorRegex s \<longleftrightarrow>
     (\<exists>p ds. s = p @ ''stopped after '' @ ds @ '' redirects'' \<and> ds \<noteq> [] \<and> (\<forall>c\<in>set ds. isDigit c))"
proof
  assume "redirectsErrorRegex s"
  then have h1: "HasPrefix (rev s) (rev '' redirects'')"
    and h2: "takeWhile isDigit (drop (length '' redirects'') (rev s)) \<noteq> []"
    and h3: "HasPrefix (dropWhile isDigit (drop (length '' redirects'') (rev s))) (rev ''stopped after '')"
    by (simp_all add: redirectsErrorRegex_def Let_def)
  from h1 obtain r1 where r1: "rev s = rev '' redirects'' @ r1" using HasPrefix_iff by blast
  then have d: "drop (length '' redirects'') (rev s) = r1" by simp
  from h3 d obtain q where q: "dropWhile isDigit r1 = rev ''stopped after '' @ q"
    using HasPrefix_iff by metis
  let ?ds = "rev (takeWhile isDigit r1)"
  have "r1 = takeWhile isDigit r1 @ dropWhile isDigit r1" by simp
  then have "rev s = rev '' redirects'' @ takeWhile isDigit r1 @ rev ''stopped after '' @ q"
    using r1 q by metis
  then have "rev (rev s) = rev (rev '' redirects'' @ takeWhile isDigit r1 @ rev ''stopped after '' @ q)"
    by simp
  then have "s = rev q @ ''stopped after '' @ ?ds @ '' redirects''"
    by (simp only: rev_rev_ident rev_append append_assoc)
  moreover have "?ds \<noteq> []" using h2 d by simp
  moreover have "\<forall>c\<in>set ?ds. isDigit c" by (auto dest: set_takeWhileD)
  ultimately show "\<exists>p ds. s = p @ ''stopped after '' @ ds @ '' redirects'' \<and> ds \<noteq> [] \<and> (\<forall>c\<in>set ds. isDigit c)"
    by blast
next
  assume "\<exists>p ds. s = p @ ''stopped after '' @ ds @ '' redirects'' \<and> ds \<noteq> [] \<and> (\<forall>c\<in>set ds. isDigit c)"
  then obtain p ds where s: "s = p @ ''stopped after '' @ ds @ '' redirects''"
    and ne: "ds \<noteq> []" and dg: "\<forall>c\<in>set ds. isDigit c" by blast
  have r: "rev s = rev '' redirects'' @ rev ds @ rev ''stopped after '' @ rev p"
    unfolding s by (simp only: rev_append append_assoc)
  have h1: "HasPrefix (rev s) (rev '' redirects'')" using r HasPrefix_iff by blast
  have d: "drop (length '' redirects'') (rev s) = rev ds @ rev ''stopped after '' @ rev p"
    unfolding r by simp
  have nd: "\<not> isDigit (CHR '' '')" by (simp add: isDigit_def)
  have hd: "rev ''stopped after '' @ rev p = CHR '' '' # (rev ''stopped after'' @ rev p)" by simp
  have tw: "takeWhile isDigit (rev ds @ rev ''stopped after '' @ rev p) = rev ds"
    unfolding hd using dg nd by (intro takeWhile_stop) simp_all
  have dw: "dropWhile isDigit (rev ds @ rev ''stopped after '' @ rev p) = rev ''stopped after '' @ rev p"
    unfolding hd using dg nd by (intro dropWhile_stop) simp_all
  have h3: "HasPrefix (rev ''stopped after '' @ rev p) (rev ''stopped after '')"
    using HasPrefix_iff by blast
  show "redirectsErrorRegex s"
    unfolding redirectsErrorRegex_def Let_def d tw dw using h1 ne h3 r by simp
qed


text \<open>
  C5: \<^verbatim>\<open>CheckRecoverableErrors\<close> returns \<^verbatim>\<open>(false, ctx.Err())\<close> when the context is
  cancelled or past its deadline, whatever the error; otherwise \<^verbatim>\<open>(false, nil)\<close> when
  the error is nil; otherwise \<^verbatim>\<open>(false, nil)\<close> when the error is (or wraps) a
  \<^verbatim>\<open>*url.Error\<close> whose text matches the redirect pattern or the scheme pattern, or whose
  cause is an \<^verbatim>\<open>x509.UnknownAuthorityError\<close>; and \<^verbatim>\<open>(true, nil)\<close> for every other
  error.
\<close>

theorem CheckRecoverableErrors_cases:
  "(ctxErr ctx \<noteq> None \<longrightarrow> CheckRecoverableErrors ctx resp err = (False, ctxErr ctx)) \<and>
   (ctxErr ctx = None \<and> err = None \<longrightarrow> CheckRecoverableErrors ctx resp err = (False, None)) \<and>
   (ctxErr ctx = None \<and> err = Some x \<and> As_URLError x = Some u \<and>
      (isRedirectError u \<or> isSchemeError u \<or> isUnknownAuthorityError u) \<longrightarrow>
        CheckRecoverableErrors ctx resp err = (False, None)) \<and>
   (ctxErr ctx = None \<and> err = Some x \<and>
      \<not> (\<exists>v. As_URLError x = Some v \<and>
             (isRedirectError v \<or> isSchemeError v \<or> isUnknownAuthorityError v)) \<longrightarrow>
        CheckRecoverableErrors ctx resp err = (True, None))"
  by (auto simp add: CheckRecoverableErrors_def split: option.splits)

theorem CheckRecoverableErrors_cases_witness:
  "CheckRecoverableErrors \<lparr>ctxErr = Some ContextCanceled, ctxRetryMax = None\<rparr> None
      (Some (ErrorString ''connection reset'')) = (False, Some ContextCanceled) \<and>
   CheckRecoverableErrors \<lparr>ctxErr = None, ctxRetryMax = None\<rparr>
      (Some \<lparr>StatusCode = 500, Body = 0\<rparr>) None = (False, None) \<and>
   CheckRecoverableErrors \<lparr>ctxErr = None, ctxRetryMax = None\<rparr> None
      (Some (URLError ''Get'' ''http://a'' (ErrorString ''stopped after 10 redirects'')))
      = (False, None) \<and>
   CheckRecoverableErrors \<lparr>ctxErr = None, ctxRetryMax = None\<rparr> None
      (Some (URLError ''Get'' ''ftp://a'' (ErrorString ''unsupported protocol scheme'')))
      = (False, None) \<and>
   CheckRecoverableErrors \<lparr>ctxErr = None, ctxRetryMax = None\<rparr> None
      (Some (WrapError ''request failed'' (Some (URLError ''Get'' ''https://a''
         (WrapError ''tls: failed to verify certificate'' (Some UnknownAuthorityError))))))
      = (False, None) \<and>
   CheckRecoverableErrors \<lparr>ctxErr = None, ctxRetryMax = None\<rparr> None
      (Some (URLError ''Get'' ''http://a'' (ErrorString ''connection refused'')))
      = (True, None) \<and>
   CheckRecoverableErrors \<lparr>ctxErr = None, ctxRetryMax = None\<rparr> None
      (Some (ErrorString ''stopped after 10 redirects'')) = (True, None)"
proof -
  let ?bg = "\<lparr>ctxErr = None, ctxRetryMax = None\<rparr>"
  let ?u1 = "URLError ''Get'' ''http://a'' (ErrorString ''stopped after 10 redirects'')"
  let ?u2 = "URLError ''Get'' ''ftp://a'' (ErrorString ''unsupported protocol scheme'')"
  let ?u3 = "URLError ''Get'' ''https://a''
         (WrapError ''tls: failed to verify certificate'' (Some UnknownAuthorityError))"
  let ?u4 = "URLError ''Get'' ''http://a'' (ErrorString ''connection refused'')"
  have r1: "isRedirectError ?u1"
    by (simp add: isRedirectError_def redirectsErrorRegex_def Quote_def isDigit_def)
  have r2: "isSchemeError ?u2"
    by (simp add: isSchemeError_def schemeErrorRegex_def Quote_def)
  have r3: "isUnknownAuthorityError ?u3"
    by simp
  have r4: "\<not> (\<exists>v. As_URLError ?u4 = Some v \<and>
             (isRedirectError v \<or> isSchemeError v \<or> isUnknownAuthorityError v))"
    by (simp add: isRedirectError_def redirectsErrorRegex_def Quote_def isDigit_def
        isSchemeError_def schemeErrorRegex_def)
  have r5: "\<not> (\<exists>v. As_URLError (ErrorString ''stopped after 10 redirects'') = Some v \<and>
             (isRedirectError v \<or> isSchemeError v \<or> isUnknownAuthorityError v))"
    by simp
  show ?thesis
    using
      CheckRecoverableErrors_cases[of "\<lparr>ctxErr = Some ContextCanceled, ctxRetryMax = None\<rparr>"
        None "Some (ErrorString ''connection reset'')"]
      CheckRecoverableErrors_cases[of ?bg "Some \<lparr>StatusCode = 500, Body = 0\<rparr>" None]
      CheckRecoverableErrors_cases[of ?bg None "Some ?u1" ?u1 ?u1]
      CheckRecoverableErrors_cases[of ?bg None "Some ?u2" ?u2 ?u2]
      CheckRecoverableErrors_cases[of ?bg None
        "Some (WrapError ''request failed'' (Some ?u3))" "WrapError ''request failed'' (Some ?u3)" ?u3]
      CheckRecoverableErrors_cases[of ?bg None "Some ?u4" ?u4]
      CheckRecoverableErrors_cases[of ?bg None "Some (ErrorString ''stopped after 10 redirects'')"
        "ErrorString ''stopped after 10 redirects''"]
      r1 r2 r3 r4 r5
    by simp
qed

end
